theory Spec2Isabelle
  imports Main
begin

section \<open>Python values and strings\<close>

text \<open>
  The program is a Python script. A value that is either a string or Python's \<open>None\<close>
  is a \<open>string option\<close>; exceptions are values of \<open>error\<close> on the left of a sum.
  Strings are lists of 8-bit characters, so the model covers ASCII names.
\<close>

datatype error =
    KeyError | TypeError | ValueError | AttributeError | RecursionError
  | UnsupportedFormat
  | InvalidXMLType
  | MaxRecursion

type_synonym pyval = "string option"

text \<open>Truth value of a string-or-None: \<open>None\<close> and the empty string are falsy.\<close>

fun truthy :: "pyval \<Rightarrow> bool" where
  "truthy None = False"
| "truthy (Some s) = (s \<noteq> [])"

text \<open>Python's \<open>a or b\<close>.\<close>

definition py_or :: "pyval \<Rightarrow> pyval \<Rightarrow> pyval" where
  "py_or a b = (if truthy a then a else b)"

text \<open>\<open>str(v)\<close>, as the \<open>%s\<close> conversion applies it.\<close>

fun py_str :: "pyval \<Rightarrow> string" where
  "py_str None = ''None''"
| "py_str (Some s) = s"

fun startswith :: "string \<Rightarrow> string \<Rightarrow> bool" where
  "startswith s [] = True"
| "startswith [] (p # ps) = False"
| "startswith (c # cs) (p # ps) = (c = p \<and> startswith cs ps)"

text \<open>
  \<open>s.replace(old, new)\<close>: the occurrences of \<open>old\<close> are replaced from the left, without
  overlap. An empty \<open>old\<close> matches before every character and at the end.
\<close>

function replace :: "string \<Rightarrow> string \<Rightarrow> string \<Rightarrow> string" where
  "replace [] old new = (if old = [] then new else [])"
| "replace (c # cs) old new =
     (if old = [] then new @ c # replace cs old new
      else if startswith (c # cs) old
      then new @ replace (drop (length old) (c # cs)) old new
      else c # replace cs old new)"
  by pat_completeness auto
termination
  by (relation "measure (\<lambda>(s, old, new). length s)") (auto simp: neq_Nil_conv)

text \<open>\<open>s.lower()\<close> on ASCII.\<close>

definition lower_char :: "char \<Rightarrow> char" where
  "lower_char c =
     (case map_of (zip ''ABCDEFGHIJKLMNOPQRSTUVWXYZ'' ''abcdefghijklmnopqrstuvwxyz'') c of
        None \<Rightarrow> c
      | Some l \<Rightarrow> l)"

definition lower :: "string \<Rightarrow> string" where
  "lower s = map lower_char s"

section \<open>The type table\<close>

text \<open>
  \<open>SDict\<close> is a dict whose \<open>__getitem__\<close> returns \<open>dict.__getitem__(self, item) % self\<close>:
  the stored value is used as a format string with the dict itself as the mapping, so a
  stored \<open>%(string)s\<close> is replaced by \<open>self['string']\<close>, which is formatted in turn.
  The dict is an association list from keys to string-or-None.

  \<open>fmt_text getitem s\<close> is the \<open>%\<close> operator on the format string \<open>s\<close>, with
  \<open>getitem\<close> the mapping's lookup: it copies characters, turns \<open>%%\<close> into \<open>%\<close>, and
  for \<open>%(key)s\<close> looks the key up (when the key has been read, before the conversion
  character is) and inserts the result. A key ends at the matching parenthesis
  (\<open>fmt_key\<close> counts the nesting). Conversions other than \<open>s\<close> right after the key do
  not occur in the program's table; they give \<open>UnsupportedFormat\<close>.
  The first argument of \<open>sdict_getitem\<close> bounds the nesting of \<open>__getitem__\<close> calls, as
  the interpreter's recursion limit does; running out is \<open>RecursionError\<close>.
\<close>

type_synonym sdict = "(string \<times> pyval) list"

fun fmt_text :: "(string \<Rightarrow> error + string) \<Rightarrow> string \<Rightarrow> error + string"
and fmt_spec :: "(string \<Rightarrow> error + string) \<Rightarrow> string \<Rightarrow> error + string"
and fmt_key :: "(string \<Rightarrow> error + string) \<Rightarrow> nat \<Rightarrow> string \<Rightarrow> string \<Rightarrow> error + string"
and fmt_conv :: "(string \<Rightarrow> error + string) \<Rightarrow> string \<Rightarrow> string \<Rightarrow> error + string"
where
  "fmt_text getitem [] = Inr []"
| "fmt_text getitem (c # cs) =
     (if c = CHR ''%'' then fmt_spec getitem cs
      else map_sum id ((#) c) (fmt_text getitem cs))"
| "fmt_spec getitem [] = Inl ValueError"
| "fmt_spec getitem (c # cs) =
     (if c = CHR ''%'' then map_sum id ((#) c) (fmt_text getitem cs)
      else if c = CHR ''('' then fmt_key getitem 1 [] cs
      else Inl UnsupportedFormat)"
| "fmt_key getitem p key [] = Inl ValueError"
| "fmt_key getitem p key (c # cs) =
     (if c = CHR '')'' \<and> p = 1 then
        (case getitem key of Inl e \<Rightarrow> Inl e | Inr v \<Rightarrow> fmt_conv getitem v cs)
      else fmt_key getitem (if c = CHR '')'' then p - 1 else if c = CHR ''('' then p + 1 else p)
             (key @ [c]) cs)"
| "fmt_conv getitem v [] = Inl ValueError"
| "fmt_conv getitem v (c # cs) =
     (if c = CHR ''s'' then map_sum id ((@) v) (fmt_text getitem cs)
      else Inl UnsupportedFormat)"

fun sdict_getitem :: "nat \<Rightarrow> sdict \<Rightarrow> string \<Rightarrow> error + string" where
  "sdict_getitem n d item =
     (if n = 0 then Inl RecursionError
      else case map_of d item of
             None \<Rightarrow> Inl KeyError
           | Some None \<Rightarrow> Inl TypeError
           | Some (Some s) \<Rightarrow> fmt_text (\<lambda>k. sdict_getitem (n - 1) d k) s)"

text \<open>
  \<open>SDict.get\<close>: the same lookup, with \<open>KeyError\<close> (and only \<open>KeyError\<close>) turned into
  \<open>None\<close>.
\<close>

definition sdict_get :: "nat \<Rightarrow> sdict \<Rightarrow> string \<Rightarrow> error + pyval" where
  "sdict_get n d item =
     (case sdict_getitem n d item of
        Inl KeyError \<Rightarrow> Inr None
      | Inl e \<Rightarrow> Inl e
      | Inr s \<Rightarrow> Inr (Some s))"

definition DEFX2P :: sdict where
  "DEFX2P =
   [(''string'', Some ''varchar''),
    (''boolean'', Some ''boolean''),
    (''decimal'', Some ''numeric''),
    (''float'', Some ''real''),
    (''double'', Some ''double precision''),
    (''duration'', Some ''interval''),
    (''dateTime'', Some ''timestamp''),
    (''time'', Some ''time''),
    (''date'', Some ''date''),
    (''gYearMonth'', Some ''timestamp''),
    (''gYear'', Some ''timestamp''),
    (''gMonthDay'', Some ''timestamp''),
    (''gDay'', Some ''timestamp''),
    (''gMonth'', Some ''timestamp''),
    (''hexBinary'', Some ''bytea''),
    (''base64Binary'', Some ''bytea''),
    (''anyURI'', Some ''varchar''),
    (''QName'', None),
    (''NOTATION'', None),
    (''normalizedString'', Some ''%(string)s''),
    (''token'', Some ''%(string)s''),
    (''language'', Some ''%(string)s''),
    (''NMTOKEN'', None),
    (''NMTOKENS'', None),
    (''Name'', Some ''%(string)s''),
    (''NCName'', Some ''%(string)s''),
    (''ID'', None),
    (''IDREF'', None),
    (''IDREFS'', None),
    (''ENTITY'', None),
    (''ENTITIES'', None),
    (''integer'', Some ''integer''),
    (''nonPositiveInteger'', Some ''%(integer)s''),
    (''negativeInteger'', Some ''%(integer)s''),
    (''long'', Some ''%(integer)s''),
    (''int'', Some ''%(integer)s''),
    (''short'', Some ''%(integer)s''),
    (''byte'', Some ''%(integer)s''),
    (''nonNegativeInteger'', Some ''%(integer)s''),
    (''unsignedLong'', Some ''%(integer)s''),
    (''unsignedInt'', Some ''%(integer)s''),
    (''unsignedShort'', Some ''%(integer)s''),
    (''unsignedByte'', Some ''%(integer)s''),
    (''positiveInteger'', Some ''%(integer)s'')]"

text \<open>
  A lookup of the table runs under the interpreter's recursion limit (1000 frames unless
  changed). The walk nests at most 101 calls of its own, and a lookup of \<open>DEFX2P\<close> needs
  two nested \<open>__getitem__\<close> calls at most.
\<close>

definition recursion_limit :: nat where
  "recursion_limit = 1000"

text \<open>
  \<open>USER_TYPES\<close> is a plain dict, global in the program and passed explicitly here; its
  values are strings or \<open>None\<close>. \<open>USER_TYPES.get(k)\<close> is \<open>None\<close> for a missing key.
\<close>

type_synonym user_types = "string \<rightharpoonup> pyval"

definition user_types_get :: "user_types \<Rightarrow> string \<Rightarrow> pyval" where
  "user_types_get ut k = (case ut k of None \<Rightarrow> None | Some v \<Rightarrow> v)"

definition XMLS :: string where
  "XMLS = ''{http://www.w3.org/2001/XMLSchema}''"

definition XMLS_PREFIX :: string where
  "XMLS_PREFIX = ''xs:''"

definition MAX_RECURSE_LEVEL :: nat where
  "MAX_RECURSE_LEVEL = 100"

text \<open>\<open>pg_normalize\<close>: a falsy argument becomes the empty string first.\<close>

definition pg_normalize :: "pyval \<Rightarrow> string" where
  "pg_normalize string =
     lower (replace (replace (replace (if truthy string then py_str string else [])
       ''-'' ''_'') ''.'' ''_'') '' '' ''_'')"

section \<open>The parsed document\<close>

text \<open>
  The document is an lxml tree. A node has its tag (in Clark notation, the namespace in
  braces), its attributes and its children in document order (comments and processing
  instructions are children too, under tags of their own). The program reads nothing else.
  The tree object returned by the parser delegates \<open>find\<close> and \<open>findall\<close> to the
  document's root element, so the document is its root element here.
\<close>

datatype node = Node (tag: string) (attrib: "(string \<times> string) list") (subnodes: "node list")

text \<open>\<open>el.get(key)\<close>: the attribute, or \<open>None\<close>.\<close>

definition el_get :: "node \<Rightarrow> string \<Rightarrow> pyval" where
  "el_get el key = map_of (attrib el) key"

text \<open>\<open>el.findall(t)\<close> for a plain tag: the direct children with that tag, in order.\<close>

definition findall :: "node \<Rightarrow> string \<Rightarrow> node list" where
  "findall el t = filter (\<lambda>x. tag x = t) (subnodes el)"

text \<open>\<open>el.find(t)\<close> for a plain tag: the first such child, or \<open>None\<close>.\<close>

definition find_child :: "node \<Rightarrow> string \<Rightarrow> node option" where
  "find_child el t = List.find (\<lambda>x. tag x = t) (subnodes el)"

text \<open>
  \<open>root.find("r:complexType[@name='{}']".format(name), nsd)\<close> with \<open>r\<close> bound to the
  XML Schema namespace: the first child of the root that is a \<open>complexType\<close> whose
  \<open>name\<close> attribute is \<open>name\<close>. (A name with a quote in it would break the path
  expression; such names are outside the model.)
\<close>

definition find_complexType :: "node \<Rightarrow> string \<Rightarrow> node option" where
  "find_complexType root name =
     List.find (\<lambda>x. tag x = ''{http://www.w3.org/2001/XMLSchema}complexType''
                    \<and> el_get x ''name'' = Some name) (subnodes root)"

text \<open>
  The truth value of an lxml element is whether it has children; that of \<open>None\<close> is
  false.
\<close>

fun node_truthy :: "node option \<Rightarrow> bool" where
  "node_truthy None = False"
| "node_truthy (Some n) = (subnodes n \<noteq> [])"


section \<open>The walk\<close>

text \<open>
  \<open>DEFX2P.get(k) or USER_TYPES.get(k) or None\<close>: the built-in table first, the user
  types when it gives a falsy value. An exception of the first lookup propagates.
\<close>

definition lookup_pgType :: "user_types \<Rightarrow> string \<Rightarrow> error + pyval" where
  "lookup_pgType ut k =
     (case sdict_get recursion_limit DEFX2P k of
        Inl e \<Rightarrow> Inl e
      | Inr v \<Rightarrow> Inr (py_or (py_or v (user_types_get ut k)) None))"

text \<open>\<open>x.get('type') or x.get('ref') or 'string'\<close>\<close>

definition this_type :: "node \<Rightarrow> string" where
  "this_type x = py_str (py_or (py_or (el_get x ''type'') (el_get x ''ref'')) (Some ''string''))"

text \<open>
  The column list is \<open>None\<close> until the first column; \<open>"%s %s" % (colName, pgType)\<close>
  starts it and \<open>", %s %s"\<close> extends it.
\<close>

definition add_column :: "pyval \<Rightarrow> pyval \<Rightarrow> pyval \<Rightarrow> pyval" where
  "add_column cols colName pgType =
     (if \<not> truthy cols then Some (py_str colName @ '' '' @ py_str pgType)
      else Some (py_str cols @ '', '' @ py_str colName @ '' '' @ py_str pgType))"

text \<open>\<open>"CREATE TABLE %s (%s);" % (parent, cols)\<close>\<close>

definition create_table :: "pyval \<Rightarrow> pyval \<Rightarrow> string" where
  "create_table parent cols = ''CREATE TABLE '' @ py_str parent @ '' ('' @ py_str cols @ '');''"

text \<open>
  \<open>look4element\<close> returns the pair (children, sql) or raises. Its three \<open>for\<close> loops are
  \<open>elements_loop\<close> (with \<open>element_body\<close> the body of one iteration, on the loop's
  variables \<open>cols\<close>, \<open>children\<close> and \<open>sql\<close>) and \<open>structs_loop\<close>, which runs once over
  the \<open>complexType\<close> children and once over the \<open>sequence\<close> children.
  The recursive calls pass \<open>fail\<close> on and do not pass \<open>normalize\<close>, which so takes its
  default \<open>True\<close> in them. An exception of a recursive call is not caught anywhere.
  The recursion terminates because of the check of \<open>recurse_level\<close> alone: the named
  type an element refers to need not be below it in the tree.
\<close>

function look4element ::
    "user_types \<Rightarrow> node \<Rightarrow> string \<Rightarrow> node \<Rightarrow> pyval \<Rightarrow> nat \<Rightarrow> bool \<Rightarrow> bool
      \<Rightarrow> error + bool \<times> string"
and elements_loop ::
    "user_types \<Rightarrow> node \<Rightarrow> string \<Rightarrow> pyval \<Rightarrow> nat \<Rightarrow> bool \<Rightarrow> bool
      \<Rightarrow> node list \<Rightarrow> pyval \<times> bool \<times> string \<Rightarrow> error + pyval \<times> bool \<times> string"
and element_body ::
    "user_types \<Rightarrow> node \<Rightarrow> string \<Rightarrow> pyval \<Rightarrow> nat \<Rightarrow> bool \<Rightarrow> bool
      \<Rightarrow> node \<Rightarrow> pyval \<times> bool \<times> string \<Rightarrow> error + pyval \<times> bool \<times> string"
and structs_loop ::
    "user_types \<Rightarrow> node \<Rightarrow> string \<Rightarrow> pyval \<Rightarrow> nat \<Rightarrow> bool
      \<Rightarrow> node list \<Rightarrow> bool \<times> string \<Rightarrow> error + bool \<times> string"
where
  "look4element ut root ns el parent recurse_level fail normalise =
     (if recurse_level > MAX_RECURSE_LEVEL then Inl MaxRecursion
      else
        case elements_loop ut root ns parent recurse_level fail normalise
               (findall el (ns @ ''element'')) (None, False, []) of
          Inl e \<Rightarrow> Inl e
        | Inr (cols, children, sql) \<Rightarrow>
            (case structs_loop ut root ns parent recurse_level fail
                    (findall el (ns @ ''complexType''))
                    (children, if truthy cols then sql @ create_table parent cols else sql) of
               Inl e \<Rightarrow> Inl e
             | Inr st \<Rightarrow>
                 structs_loop ut root ns parent recurse_level fail
                   (findall el (ns @ ''sequence'')) st))"
| "elements_loop ut root ns parent recurse_level fail normalise [] st = Inr st"
| "elements_loop ut root ns parent recurse_level fail normalise (x # xs) st =
     (case element_body ut root ns parent recurse_level fail normalise x st of
        Inl e \<Rightarrow> Inl e
      | Inr st' \<Rightarrow> elements_loop ut root ns parent recurse_level fail normalise xs st')"
| "element_body ut root ns parent recurse_level fail normalise x (cols, children, sql) =
     (case look4element ut root ns x (py_or (el_get x ''name'') parent)
             (recurse_level + 1) fail True of
        Inl e \<Rightarrow> Inl e
      | Inr rez \<Rightarrow>
          if fst rez then Inr (cols, True, sql @ snd rez @ ''\<newline>'')
          else
            (case lookup_pgType ut (replace (this_type x) XMLS_PREFIX []) of
               Inl e \<Rightarrow> Inl e
             | Inr pgType \<Rightarrow>
                 if \<not> truthy pgType then
                   (case find_complexType root
                           (replace (replace (this_type x) XMLS_PREFIX []) ''dlican:'' []) of
                      None \<Rightarrow> Inr (cols, True, sql @ snd rez @ ''\<newline>'')
                    | Some type_node \<Rightarrow>
                        if node_truthy (Some type_node) then
                          (case look4element ut root ns type_node (el_get type_node ''name'')
                                  (recurse_level + 1) fail True of
                             Inl e \<Rightarrow> Inl e
                           | Inr rez' \<Rightarrow>
                               Inr (cols, True,
                                    sql @ snd rez @ ''\<newline>'' @ snd rez' @ ''\<newline>''))
                        else Inr (cols, True, sql @ snd rez @ ''\<newline>''))
                 else
                   Inr (add_column cols
                          (if normalise
                           then Some (pg_normalize (py_or (el_get x ''name'') (el_get x ''ref'')))
                           else py_or (el_get x ''name'') (el_get x ''ref''))
                          pgType,
                        True, sql @ snd rez @ ''\<newline>'')))"
| "structs_loop ut root ns parent recurse_level fail [] st = Inr st"
| "structs_loop ut root ns parent recurse_level fail (x # xs) (children, sql) =
     (case look4element ut root ns x (py_or (el_get x ''name'') parent)
             (recurse_level + 1) fail True of
        Inl e \<Rightarrow> Inl e
      | Inr rez \<Rightarrow>
          structs_loop ut root ns parent recurse_level fail xs (True, sql @ snd rez @ ''\<newline>''))"
  by pat_completeness auto
termination
  by (relation "inv_image (less_than <*lex*> less_than)
        (\<lambda>v. case v of
            Inl (Inl (ut, root, ns, el, parent, lvl, fail, normalise)) \<Rightarrow> (2 * (102 - lvl), 0)
          | Inl (Inr (ut, root, ns, parent, lvl, fail, normalise, xs, st)) \<Rightarrow>
              (2 * (102 - lvl) - 1, Suc (Suc (length xs)))
          | Inr (Inl (ut, root, ns, parent, lvl, fail, normalise, x, st)) \<Rightarrow>
              (2 * (102 - lvl) - 1, Suc 0)
          | Inr (Inr (ut, root, ns, parent, lvl, fail, xs, st)) \<Rightarrow>
              (2 * (102 - lvl) - 1, Suc (length xs)))")
     (auto simp: MAX_RECURSE_LEVEL_def)

section \<open>User types\<close>

text \<open>
  \<open>buildTypes\<close> fills \<open>USER_TYPES\<close> from the children of the root: first the
  \<open>element\<close> children that have a truthy \<open>name\<close> and \<open>type\<close>, then every
  \<open>simpleType\<close> child. Looking for \<open>r:element\<close> with \<open>r\<close> bound to \<open>ns\<close> is looking
  for the tag \<open>{ns}element\<close>. For a \<open>simpleType\<close> without a \<open>restriction\<close> child, or
  whose restriction has no \<open>base\<close>, the program calls a method of \<open>None\<close>, which is an
  \<open>AttributeError\<close>.
\<close>

fun buildTypes_elements :: "node list \<Rightarrow> user_types \<Rightarrow> error + user_types" where
  "buildTypes_elements [] ut = Inr ut"
| "buildTypes_elements (el # els) ut =
     (if truthy (el_get el ''name'') \<and> truthy (el_get el ''type'') then
        (case sdict_get recursion_limit DEFX2P
                (replace (py_str (el_get el ''type'')) XMLS_PREFIX []) of
           Inl e \<Rightarrow> Inl e
         | Inr v \<Rightarrow> buildTypes_elements els (ut(pg_normalize (el_get el ''name'') \<mapsto> v)))
      else buildTypes_elements els ut)"

fun buildTypes_simpleTypes :: "string \<Rightarrow> node list \<Rightarrow> user_types \<Rightarrow> error + user_types" where
  "buildTypes_simpleTypes ns [] ut = Inr ut"
| "buildTypes_simpleTypes ns (el # els) ut =
     (case find_child el (''{'' @ ns @ ''}restriction'') of
        None \<Rightarrow> Inl AttributeError
      | Some restr \<Rightarrow>
          (case el_get restr ''base'' of
             None \<Rightarrow> Inl AttributeError
           | Some base \<Rightarrow>
               buildTypes_simpleTypes ns els
                 (ut(pg_normalize (el_get el ''name'') \<mapsto> Some (replace base XMLS_PREFIX [])))))"

definition buildTypes :: "string \<Rightarrow> node \<Rightarrow> user_types \<Rightarrow> error + user_types" where
  "buildTypes ns root_element ut =
     (case buildTypes_elements (findall root_element (''{'' @ ns @ ''}element'')) ut of
        Inl e \<Rightarrow> Inl e
      | Inr ut' \<Rightarrow>
          buildTypes_simpleTypes ns (findall root_element (''{'' @ ns @ ''}simpleType'')) ut')"

section \<open>The main program, for one file\<close>

text \<open>
  \<open>main\<close> parses the file, registers its types and walks the document with the
  normalized base name of the file (its name up to the first dot) as the root table
  name; \<open>as_is\<close> and \<open>failOnBadType\<close> are the command line's flags. Without a database
  name it prints the result with every pair of newlines removed.
\<close>

definition main_walk :: "string \<Rightarrow> node \<Rightarrow> bool \<Rightarrow> bool \<Rightarrow> error + bool \<times> string" where
  "main_walk base xsd failOnBadType as_is =
     (case buildTypes ''http://www.w3.org/2001/XMLSchema'' xsd Map.empty of
        Inl e \<Rightarrow> Inl e
      | Inr ut \<Rightarrow>
          look4element ut xsd XMLS xsd (Some (pg_normalize (Some base))) 0 failOnBadType
            (\<not> as_is))"

definition printed :: "bool \<times> string \<Rightarrow> string" where
  "printed result = replace (snd result) ''\<newline>\<newline>'' []"


section \<open>The calls of a walk\<close>

text \<open>
  A call of \<open>look4element\<close> is given by its node, its parent name, its depth and its
  \<open>normalize\<close> argument (the other arguments never change). \<open>calls\<close> relates a call
  to the calls its body makes when it runs, one rule for each of the four call sites:
  the call for an \<open>element\<close> child is made when the iterations before it have not
  raised; the call for the named type of a leaf when, further, the child's own
  call returned without children, the lookup gave a falsy type and a truthy
  \<open>complexType\<close> node was found; the calls for the \<open>complexType\<close> and \<open>sequence\<close>
  children when the loops before them have completed.
\<close>

type_synonym call = "node \<times> pyval \<times> nat \<times> bool"

inductive calls :: "user_types \<Rightarrow> node \<Rightarrow> string \<Rightarrow> bool \<Rightarrow> call \<Rightarrow> call \<Rightarrow> bool"
  for ut :: user_types and root :: node and ns :: string and fail :: bool
where
  element_call:
    "\<not> recurse_level > MAX_RECURSE_LEVEL \<Longrightarrow>
     findall el (ns @ ''element'') = before @ x # after \<Longrightarrow>
     elements_loop ut root ns parent recurse_level fail normalise before (None, False, []) = Inr st \<Longrightarrow>
     calls ut root ns fail (el, parent, recurse_level, normalise)
       (x, py_or (el_get x ''name'') parent, recurse_level + 1, True)"
| type_call:
    "\<not> recurse_level > MAX_RECURSE_LEVEL \<Longrightarrow>
     findall el (ns @ ''element'') = before @ x # after \<Longrightarrow>
     elements_loop ut root ns parent recurse_level fail normalise before (None, False, []) = Inr st \<Longrightarrow>
     look4element ut root ns x (py_or (el_get x ''name'') parent) (recurse_level + 1) fail True
       = Inr rez \<Longrightarrow>
     \<not> fst rez \<Longrightarrow>
     lookup_pgType ut (replace (this_type x) XMLS_PREFIX []) = Inr pgType \<Longrightarrow>
     \<not> truthy pgType \<Longrightarrow>
     find_complexType root (replace (replace (this_type x) XMLS_PREFIX []) ''dlican:'' [])
       = Some type_node \<Longrightarrow>
     node_truthy (Some type_node) \<Longrightarrow>
     calls ut root ns fail (el, parent, recurse_level, normalise)
       (type_node, el_get type_node ''name'', recurse_level + 1, True)"
| complexType_call:
    "\<not> recurse_level > MAX_RECURSE_LEVEL \<Longrightarrow>
     elements_loop ut root ns parent recurse_level fail normalise
       (findall el (ns @ ''element'')) (None, False, []) = Inr (cols, children, sql) \<Longrightarrow>
     findall el (ns @ ''complexType'') = before @ x # after \<Longrightarrow>
     structs_loop ut root ns parent recurse_level fail before
       (children, if truthy cols then sql @ create_table parent cols else sql) = Inr st \<Longrightarrow>
     calls ut root ns fail (el, parent, recurse_level, normalise)
       (x, py_or (el_get x ''name'') parent, recurse_level + 1, True)"
| sequence_call:
    "\<not> recurse_level > MAX_RECURSE_LEVEL \<Longrightarrow>
     elements_loop ut root ns parent recurse_level fail normalise
       (findall el (ns @ ''element'')) (None, False, []) = Inr (cols, children, sql) \<Longrightarrow>
     structs_loop ut root ns parent recurse_level fail (findall el (ns @ ''complexType''))
       (children, if truthy cols then sql @ create_table parent cols else sql) = Inr st \<Longrightarrow>
     findall el (ns @ ''sequence'') = before @ x # after \<Longrightarrow>
     structs_loop ut root ns parent recurse_level fail before st = Inr st' \<Longrightarrow>
     calls ut root ns fail (el, parent, recurse_level, normalise)
       (x, py_or (el_get x ''name'') parent, recurse_level + 1, True)"

text \<open>The result of a call.\<close>

fun result_of :: "user_types \<Rightarrow> node \<Rightarrow> string \<Rightarrow> bool \<Rightarrow> call \<Rightarrow> error + bool \<times> string" where
  "result_of ut root ns fail (el, parent, recurse_level, normalise) =
     look4element ut root ns el parent recurse_level fail normalise"

section \<open>Positions in the output\<close>

text \<open>\<open>s.find(sub)\<close>: the lowest index at which \<open>sub\<close> occurs in \<open>s\<close>, if any.\<close>

fun find_from :: "nat \<Rightarrow> string \<Rightarrow> string \<Rightarrow> nat option" where
  "find_from i [] sub = (if sub = [] then Some i else None)"
| "find_from i (c # cs) sub =
     (if startswith (c # cs) sub then Some i else find_from (i + 1) cs sub)"

definition find_sub :: "string \<Rightarrow> string \<Rightarrow> nat option" where
  "find_sub s sub = find_from 0 s sub"

section \<open>Documents\<close>

text \<open>An element of the XML Schema namespace.\<close>

definition xs_el :: "string \<Rightarrow> (string \<times> string) list \<Rightarrow> node list \<Rightarrow> node" where
  "xs_el t = Node (XMLS @ t)"

text \<open>
  The schema of an \<open>Order\<close> element with the leaf elements \<open>OrderId\<close> and
  \<open>Customer-Name\<close> in a sequence:
  \<^verbatim>\<open><xs:schema><xs:element name="Order"><xs:complexType><xs:sequence>
    <xs:element name="OrderId" type="xs:integer"/>
    <xs:element name="Customer-Name" type="xs:string"/>
  </xs:sequence></xs:complexType></xs:element></xs:schema>\<close>
\<close>

definition order_xsd :: node where
  "order_xsd =
     xs_el ''schema'' []
      [xs_el ''element'' [(''name'', ''Order'')]
        [xs_el ''complexType'' []
          [xs_el ''sequence'' []
            [xs_el ''element'' [(''name'', ''OrderId''), (''type'', ''xs:integer'')] [],
             xs_el ''element'' [(''name'', ''Customer-Name''), (''type'', ''xs:string'')] []]]]]"

text \<open>The same two leaf elements directly under the schema element.\<close>

definition flat_xsd :: node where
  "flat_xsd =
     xs_el ''schema'' []
       [xs_el ''element'' [(''name'', ''OrderId''), (''type'', ''xs:integer'')] [],
        xs_el ''element'' [(''name'', ''Customer-Name''), (''type'', ''xs:string'')] []]"

text \<open>A leaf element of the unsupported type \<open>xs:ID\<close>.\<close>

definition id_xsd :: node where
  "id_xsd = xs_el ''schema'' [] [xs_el ''element'' [(''name'', ''key''), (''type'', ''xs:ID'')] []]"

text \<open>A leaf element whose type \<open>foo\<close> is declared nowhere.\<close>

definition unknown_type_xsd :: node where
  "unknown_type_xsd =
     xs_el ''schema'' [] [xs_el ''element'' [(''name'', ''a''), (''type'', ''foo'')] []]"

text \<open>
  A simple type restricting \<open>xs:string\<close>:
  \<^verbatim>\<open><xs:schema><xs:simpleType name="MyStr"><xs:restriction base="xs:string"/>
  </xs:simpleType></xs:schema>\<close>
\<close>

definition simple_type_xsd :: node where
  "simple_type_xsd =
     xs_el ''schema'' []
       [xs_el ''simpleType'' [(''name'', ''MyStr'')]
          [xs_el ''restriction'' [(''base'', ''xs:string'')] []]]"

text \<open>
  A table \<open>P\<close> with a nested table \<open>A\<close> before its own leaf \<open>b\<close>; \<open>p_sequence\<close> is
  the sequence of \<open>P\<close>:
  \<^verbatim>\<open><xs:schema><xs:element name="P"><xs:complexType><xs:sequence>
    <xs:element name="A"><xs:complexType><xs:sequence>
      <xs:element name="x" type="xs:string"/>
    </xs:sequence></xs:complexType></xs:element>
    <xs:element name="b" type="xs:string"/>
  </xs:sequence></xs:complexType></xs:element></xs:schema>\<close>
\<close>

definition p_sequence :: node where
  "p_sequence =
     xs_el ''sequence'' []
       [xs_el ''element'' [(''name'', ''A'')]
          [xs_el ''complexType'' []
            [xs_el ''sequence'' []
              [xs_el ''element'' [(''name'', ''x''), (''type'', ''xs:string'')] []]]],
        xs_el ''element'' [(''name'', ''b''), (''type'', ''xs:string'')] []]"

definition nested_table_xsd :: node where
  "nested_table_xsd =
     xs_el ''schema'' []
      [xs_el ''element'' [(''name'', ''P'')] [xs_el ''complexType'' [] [p_sequence]]]"

text \<open>
  An element of type \<open>Empty\<close>, with a top-level \<open>complexType\<close> of that name that has no
  children, and the same schema without the declaration.
\<close>

definition empty_type_xsd :: node where
  "empty_type_xsd =
     xs_el ''schema'' []
       [xs_el ''element'' [(''name'', ''e''), (''type'', ''Empty'')] [],
        xs_el ''complexType'' [(''name'', ''Empty'')] []]"

definition absent_type_xsd :: node where
  "absent_type_xsd =
     xs_el ''schema'' [] [xs_el ''element'' [(''name'', ''e''), (''type'', ''Empty'')] []]"

text \<open>
  A table \<open>R\<close> whose first leaf \<open>a\<close> has the type \<open>T\<close>, declared as a top-level
  \<open>complexType\<close> with one leaf of its own; \<open>r_sequence\<close> is the sequence of \<open>R\<close>:
  \<^verbatim>\<open><xs:schema><xs:element name="R"><xs:complexType><xs:sequence>
    <xs:element name="a" type="T"/>
    <xs:element name="b" type="xs:string"/>
  </xs:sequence></xs:complexType></xs:element>
  <xs:complexType name="T"><xs:sequence>
    <xs:element name="x" type="xs:integer"/>
  </xs:sequence></xs:complexType></xs:schema>\<close>
\<close>

definition r_sequence :: node where
  "r_sequence =
     xs_el ''sequence'' []
       [xs_el ''element'' [(''name'', ''a''), (''type'', ''T'')] [],
        xs_el ''element'' [(''name'', ''b''), (''type'', ''xs:string'')] []]"

definition typed_xsd :: node where
  "typed_xsd =
     xs_el ''schema'' []
      [xs_el ''element'' [(''name'', ''R'')] [xs_el ''complexType'' [] [r_sequence]],
       xs_el ''complexType'' [(''name'', ''T'')]
         [xs_el ''sequence'' []
            [xs_el ''element'' [(''name'', ''x''), (''type'', ''xs:integer'')] []]]]"

text \<open>\<open>n\<close> sequences inside one another, inside an outermost one.\<close>

fun nested_sequences :: "nat \<Rightarrow> node" where
  "nested_sequences 0 = Node (XMLS @ ''sequence'') [] []"
| "nested_sequences (Suc n) = Node (XMLS @ ''sequence'') [] [nested_sequences n]"

section \<open>The output of one element child\<close>

text \<open>
  What one iteration of the loop over the \<open>element\<close> children appends to \<open>sql\<close>, case
  by case as the loop's body: the result of the child's own call and a newline; and
  exactly when the child's call returned without children, the lookup of its type
  gave a falsy value and a \<open>complexType\<close> node with children was found under the type's
  name, then also the result of the call for that node and a newline. An exception of
  either call or of the lookup is the iteration's.
\<close>

definition element_output ::
    "user_types \<Rightarrow> node \<Rightarrow> string \<Rightarrow> pyval \<Rightarrow> nat \<Rightarrow> bool \<Rightarrow> node \<Rightarrow> error + string" where
  "element_output ut root ns parent recurse_level fail x =
     (case look4element ut root ns x (py_or (el_get x ''name'') parent)
             (recurse_level + 1) fail True of
        Inl e \<Rightarrow> Inl e
      | Inr rez \<Rightarrow>
          if fst rez then Inr (snd rez @ ''\<newline>'')
          else
            (case lookup_pgType ut (replace (this_type x) XMLS_PREFIX []) of
               Inl e \<Rightarrow> Inl e
             | Inr pgType \<Rightarrow>
                 if \<not> truthy pgType then
                   (case find_complexType root
                           (replace (replace (this_type x) XMLS_PREFIX []) ''dlican:'' []) of
                      None \<Rightarrow> Inr (snd rez @ ''\<newline>'')
                    | Some type_node \<Rightarrow>
                        if node_truthy (Some type_node) then
                          (case look4element ut root ns type_node (el_get type_node ''name'')
                                  (recurse_level + 1) fail True of
                             Inl e \<Rightarrow> Inl e
                           | Inr rez' \<Rightarrow>
                               Inr (snd rez @ ''\<newline>'' @ snd rez' @ ''\<newline>''))
                        else Inr (snd rez @ ''\<newline>''))
                 else Inr (snd rez @ ''\<newline>'')))"

section \<open>Lookups of the built-in table\<close>

declare look4element.simps [simp del]
declare sdict_getitem.simps [simp del]

lemma sdict_getitem_unfold:
  "sdict_getitem n d item =
     (if n = 0 then Inl RecursionError
      else case map_of d item of
             None \<Rightarrow> Inl KeyError
           | Some None \<Rightarrow> Inl TypeError
           | Some (Some s) \<Rightarrow> fmt_text (sdict_getitem (n - 1) d) s)"
  by (subst sdict_getitem.simps) simp

lemma map_of_DEFX2P_unsupported:
  "\<forall>k \<in> set [''ID'', ''IDREF'', ''IDREFS'', ''NOTATION'', ''QName'', ''NMTOKEN'', ''NMTOKENS'',
      ''ENTITY'', ''ENTITIES'']. map_of DEFX2P k = Some None"
  by (simp add: DEFX2P_def)

lemma map_of_DEFX2P_string_aliases:
  "\<forall>k \<in> set [''normalizedString'', ''token'', ''language'', ''Name'', ''NCName''].
     map_of DEFX2P k = Some (Some ''%(string)s'')"
  by (simp add: DEFX2P_def)

lemma map_of_DEFX2P_integer_aliases:
  "\<forall>k \<in> set [''nonPositiveInteger'', ''negativeInteger'', ''long'', ''int'', ''short'',
      ''byte'', ''nonNegativeInteger'', ''unsignedLong'', ''unsignedInt'', ''unsignedShort'',
      ''unsignedByte'', ''positiveInteger''].
     map_of DEFX2P k = Some (Some ''%(integer)s'')"
  by (simp add: DEFX2P_def)

lemma map_of_DEFX2P_string: "map_of DEFX2P ''string'' = Some (Some ''varchar'')"
  by (simp add: DEFX2P_def)

lemma map_of_DEFX2P_integer: "map_of DEFX2P ''integer'' = Some (Some ''integer'')"
  by (simp add: DEFX2P_def)

lemma map_of_DEFX2P_others:
  "map_of DEFX2P ''foo'' = None" "map_of DEFX2P ''Empty'' = None" "map_of DEFX2P ''MyStr'' = None"
  "map_of DEFX2P ''T'' = None"
  by (simp_all add: DEFX2P_def)

lemma sdict_get_raises:
  "map_of d k = Some None \<Longrightarrow> n \<noteq> 0 \<Longrightarrow> sdict_get n d k = Inl TypeError"
  by (simp add: sdict_get_def sdict_getitem_unfold)

lemma sdict_get_missing:
  "map_of d k = None \<Longrightarrow> n \<noteq> 0 \<Longrightarrow> sdict_get n d k = Inr None"
  by (simp add: sdict_get_def sdict_getitem_unfold)

lemma DEFX2P_get_string:
  "n \<noteq> 0 \<Longrightarrow> sdict_get n DEFX2P ''string'' = Inr (Some ''varchar'')"
  by (simp add: sdict_get_def sdict_getitem_unfold map_of_DEFX2P_string)

lemma DEFX2P_get_integer:
  "n \<noteq> 0 \<Longrightarrow> sdict_get n DEFX2P ''integer'' = Inr (Some ''integer'')"
  by (simp add: sdict_get_def sdict_getitem_unfold map_of_DEFX2P_integer)

lemma DEFX2P_get_string_alias:
  assumes "map_of DEFX2P k = Some (Some ''%(string)s'')" "2 \<le> n"
  shows "sdict_get n DEFX2P k = Inr (Some ''varchar'')"
proof -
  from assms(2) obtain m where n: "n = Suc (Suc m)"
    by (metis Suc_le_D numeral_2_eq_2 Suc_le_mono)
  show ?thesis
    unfolding n using assms(1)
    by (simp add: sdict_get_def sdict_getitem_unfold [of "Suc _"] map_of_DEFX2P_string)
qed

lemma DEFX2P_get_integer_alias:
  assumes "map_of DEFX2P k = Some (Some ''%(integer)s'')" "2 \<le> n"
  shows "sdict_get n DEFX2P k = Inr (Some ''integer'')"
proof -
  from assms(2) obtain m where n: "n = Suc (Suc m)"
    by (metis Suc_le_D numeral_2_eq_2 Suc_le_mono)
  show ?thesis
    unfolding n using assms(1)
    by (simp add: sdict_get_def sdict_getitem_unfold [of "Suc _"] map_of_DEFX2P_integer)
qed

lemma aliased_entries:
  "filter (\<lambda>(k, v). CHR ''%'' \<in> set (py_str v)) DEFX2P =
     map (\<lambda>k. (k, Some ''%(string)s''))
       [''normalizedString'', ''token'', ''language'', ''Name'', ''NCName''] @
     map (\<lambda>k. (k, Some ''%(integer)s''))
       [''nonPositiveInteger'', ''negativeInteger'', ''long'', ''int'', ''short'', ''byte'',
        ''nonNegativeInteger'', ''unsignedLong'', ''unsignedInt'', ''unsignedShort'',
        ''unsignedByte'', ''positiveInteger'']"
  by (simp add: DEFX2P_def)

text \<open>
  C8. Every entry of the built-in table that stands for another built-in name resolves
  to the same value as that name does, and this value is the literal column type:
  \<open>varchar\<close> for the five entries \<open>%(string)s\<close>, \<open>integer\<close> for the twelve entries
  \<open>%(integer)s\<close>. These seventeen are all the entries of the table with a \<open>%\<close> in
  them. Two nested lookups are enough.
\<close>

theorem alias_resolves_like_target:
  assumes "2 \<le> n"
  shows "(\<forall>k \<in> set [''normalizedString'', ''token'', ''language'', ''Name'', ''NCName''].
            sdict_get n DEFX2P k = sdict_get n DEFX2P ''string''
          \<and> sdict_get n DEFX2P k = Inr (Some ''varchar''))
       \<and> (\<forall>k \<in> set [''nonPositiveInteger'', ''negativeInteger'', ''long'', ''int'', ''short'',
              ''byte'', ''nonNegativeInteger'', ''unsignedLong'', ''unsignedInt'',
              ''unsignedShort'', ''unsignedByte'', ''positiveInteger''].
            sdict_get n DEFX2P k = sdict_get n DEFX2P ''integer''
          \<and> sdict_get n DEFX2P k = Inr (Some ''integer''))
       \<and> map fst (filter (\<lambda>(k, v). CHR ''%'' \<in> set (py_str v)) DEFX2P) =
            [''normalizedString'', ''token'', ''language'', ''Name'', ''NCName'',
             ''nonPositiveInteger'', ''negativeInteger'', ''long'', ''int'', ''short'',
             ''byte'', ''nonNegativeInteger'', ''unsignedLong'', ''unsignedInt'',
             ''unsignedShort'', ''unsignedByte'', ''positiveInteger'']"
proof (intro conjI ballI)
  from assms have n0: "n \<noteq> 0" by simp
  {
    fix k
    assume "k \<in> set [''normalizedString'', ''token'', ''language'', ''Name'', ''NCName'']"
    then have "map_of DEFX2P k = Some (Some ''%(string)s'')"
      using map_of_DEFX2P_string_aliases by blast
    then have r: "sdict_get n DEFX2P k = Inr (Some ''varchar'')"
      using assms by (rule DEFX2P_get_string_alias)
    then show "sdict_get n DEFX2P k = Inr (Some ''varchar'')" .
    from r show "sdict_get n DEFX2P k = sdict_get n DEFX2P ''string''"
      by (simp only: DEFX2P_get_string [OF n0])
  }
  {
    fix k
    assume "k \<in> set [''nonPositiveInteger'', ''negativeInteger'', ''long'', ''int'', ''short'',
              ''byte'', ''nonNegativeInteger'', ''unsignedLong'', ''unsignedInt'',
              ''unsignedShort'', ''unsignedByte'', ''positiveInteger'']"
    then have "map_of DEFX2P k = Some (Some ''%(integer)s'')"
      using map_of_DEFX2P_integer_aliases by blast
    then have r: "sdict_get n DEFX2P k = Inr (Some ''integer'')"
      using assms by (rule DEFX2P_get_integer_alias)
    then show "sdict_get n DEFX2P k = Inr (Some ''integer'')" .
    from r show "sdict_get n DEFX2P k = sdict_get n DEFX2P ''integer''"
      by (simp only: DEFX2P_get_integer [OF n0])
  }
  show "map fst (filter (\<lambda>(k, v). CHR ''%'' \<in> set (py_str v)) DEFX2P) =
            [''normalizedString'', ''token'', ''language'', ''Name'', ''NCName'',
             ''nonPositiveInteger'', ''negativeInteger'', ''long'', ''int'', ''short'',
             ''byte'', ''nonNegativeInteger'', ''unsignedLong'', ''unsignedInt'',
             ''unsignedShort'', ''unsignedByte'', ''positiveInteger'']"
    by (simp add: aliased_entries)
qed

theorem alias_resolves_like_target_witness:
  "sdict_get recursion_limit DEFX2P ''int'' = sdict_get recursion_limit DEFX2P ''integer''
   \<and> sdict_get recursion_limit DEFX2P ''int'' = Inr (Some ''integer'')
   \<and> sdict_get recursion_limit DEFX2P ''token'' = sdict_get recursion_limit DEFX2P ''string''
   \<and> sdict_get recursion_limit DEFX2P ''token'' = Inr (Some ''varchar'')"
proof -
  have h: "2 \<le> recursion_limit"
    by (simp add: recursion_limit_def)
  have s: "''token'' \<in> set [''normalizedString'', ''token'', ''language'', ''Name'', ''NCName'']"
    by simp
  have i: "''int'' \<in> set [''nonPositiveInteger'', ''negativeInteger'', ''long'', ''int'',
      ''short'', ''byte'', ''nonNegativeInteger'', ''unsignedLong'', ''unsignedInt'',
      ''unsignedShort'', ''unsignedByte'', ''positiveInteger'']"
    by simp
  note t = alias_resolves_like_target [OF h]
  from bspec [OF conjunct1 [OF t] s] bspec [OF conjunct1 [OF conjunct2 [OF t]] i]
  show ?thesis by blast
qed

section \<open>Runs on the documents\<close>

lemma recursion_limit_nonzero: "recursion_limit \<noteq> 0"
  by (simp add: recursion_limit_def)

lemmas DEFX2P_get_simps =
  DEFX2P_get_string [OF recursion_limit_nonzero]
  DEFX2P_get_integer [OF recursion_limit_nonzero]
  sdict_get_missing [OF map_of_DEFX2P_others(1) recursion_limit_nonzero]
  sdict_get_missing [OF map_of_DEFX2P_others(2) recursion_limit_nonzero]
  sdict_get_missing [OF map_of_DEFX2P_others(3) recursion_limit_nonzero]
  sdict_get_missing [OF map_of_DEFX2P_others(4) recursion_limit_nonzero]

lemma DEFX2P_get_ID: "sdict_get recursion_limit DEFX2P ''ID'' = Inl TypeError"
  using map_of_DEFX2P_unsupported
  by (intro sdict_get_raises recursion_limit_nonzero) simp

lemmas walk_simps =
  xs_el_def XMLS_def XMLS_PREFIX_def MAX_RECURSE_LEVEL_def findall_def find_child_def
  find_complexType_def el_get_def lookup_pgType_def this_type_def add_column_def
  create_table_def pg_normalize_def lower_def lower_char_def py_or_def user_types_get_def
  look4element.simps DEFX2P_get_simps DEFX2P_get_ID

lemma walk_order_xsd:
  "look4element ut order_xsd XMLS order_xsd parent 0 fail normalise =
     Inr (True, ''\<newline>\<newline>CREATE TABLE Order (orderid integer, customer_name varchar);\<newline>\<newline>\<newline>'')"
  by (simp add: order_xsd_def walk_simps)

lemma buildTypes_order_xsd:
  "buildTypes ''http://www.w3.org/2001/XMLSchema'' order_xsd ut = Inr ut"
  by (simp add: buildTypes_def order_xsd_def walk_simps)

text \<open>
  With the two leaf elements directly under the schema element of a file \<open>Order.xsd\<close>,
  the table is named by the normalized base name of the file, and the printed text is
  the statement alone.
\<close>

lemma walk_flat_xsd:
  "main_walk ''Order'' flat_xsd failOnBadType False =
     Inr (True, ''\<newline>\<newline>CREATE TABLE order (orderid integer, customer_name varchar);'')
   \<and> printed (True, ''\<newline>\<newline>CREATE TABLE order (orderid integer, customer_name varchar);'')
      = ''CREATE TABLE order (orderid integer, customer_name varchar);''"
  by (simp add: main_walk_def buildTypes_def flat_xsd_def walk_simps printed_def)

text \<open>
  C1. The lookup of each of \<open>ID\<close>, \<open>IDREF\<close>, \<open>IDREFS\<close>, \<open>NOTATION\<close>, \<open>QName\<close>,
  \<open>NMTOKEN\<close>, \<open>NMTOKENS\<close>, \<open>ENTITY\<close>, \<open>ENTITIES\<close> in the built-in table raises
  \<open>TypeError\<close>: the stored \<open>None\<close> is given to the \<open>%\<close> operator, and \<open>get\<close> catches
  \<open>KeyError\<close> only. It does not return \<open>None\<close>. A walk over a leaf element of type
  \<open>xs:ID\<close> raises the same error instead of dropping the field, and so does the main
  program, already when it registers the element.
\<close>

theorem unsupported_primitive_lookup_raises:
  "list_all (\<lambda>k. sdict_get recursion_limit DEFX2P k = Inl TypeError)
        [''ID'', ''IDREF'', ''IDREFS'', ''NOTATION'', ''QName'', ''NMTOKEN'', ''NMTOKENS'',
         ''ENTITY'', ''ENTITIES'']
   \<and> look4element Map.empty id_xsd XMLS id_xsd (Some ''t'') 0 False True = Inl TypeError
   \<and> main_walk ''t'' id_xsd False False = Inl TypeError"
proof (intro conjI)
  show "list_all (\<lambda>k. sdict_get recursion_limit DEFX2P k = Inl TypeError)
        [''ID'', ''IDREF'', ''IDREFS'', ''NOTATION'', ''QName'', ''NMTOKEN'', ''NMTOKENS'',
         ''ENTITY'', ''ENTITIES'']"
    unfolding list_all_iff
  proof
    fix k
    assume "k \<in> set [''ID'', ''IDREF'', ''IDREFS'', ''NOTATION'', ''QName'', ''NMTOKEN'',
      ''NMTOKENS'', ''ENTITY'', ''ENTITIES'']"
    then have "map_of DEFX2P k = Some None"
      using map_of_DEFX2P_unsupported by blast
    then show "sdict_get recursion_limit DEFX2P k = Inl TypeError"
      using recursion_limit_nonzero by (rule sdict_get_raises)
  qed
  show "look4element Map.empty id_xsd XMLS id_xsd (Some ''t'') 0 False True = Inl TypeError"
    by (simp add: id_xsd_def walk_simps)
  show "main_walk ''t'' id_xsd False False = Inl TypeError"
    by (simp add: main_walk_def buildTypes_def id_xsd_def walk_simps)
qed

text \<open>
  C3. For the simple type \<open>MyStr\<close> that restricts \<open>xs:string\<close>, \<open>buildTypes\<close> stores under
  \<open>mystr\<close> the name of the base with the prefix removed, \<open>string\<close>, and not the column type
  \<open>varchar\<close> that the lookup of \<open>string\<close> in the built-in table gives.
\<close>

theorem simpleType_base_is_stored_unresolved:
  "map_sum id (\<lambda>ut. ut ''mystr'')
       (buildTypes ''http://www.w3.org/2001/XMLSchema'' simple_type_xsd Map.empty)
     = Inr (Some (Some ''string''))
   \<and> sdict_get recursion_limit DEFX2P ''string'' = Inr (Some ''varchar'')"
  by (simp add: buildTypes_def simple_type_xsd_def walk_simps)

text \<open>
  C4. Run with \<open>--as-is\<close> (normalize disabled), the main program still emits the leaf
  elements \<open>OrderId\<close> and \<open>Customer-Name\<close> of the \<open>Order\<close> schema, which are three calls
  below the root, as \<open>orderid\<close> and \<open>customer_name\<close>. The flag reaches the leaf elements
  of the root call only: directly under the schema element the names are kept.
\<close>

theorem as_is_is_lost_below_the_root:
  "main_walk ''Order'' order_xsd False True =
     Inr (True, ''\<newline>\<newline>CREATE TABLE Order (orderid integer, customer_name varchar);\<newline>\<newline>\<newline>'')
   \<and> main_walk ''Order'' flat_xsd False True =
     Inr (True, ''\<newline>\<newline>CREATE TABLE order (OrderId integer, Customer-Name varchar);'')"
  by (simp add: main_walk_def buildTypes_order_xsd walk_order_xsd)
     (simp add: buildTypes_def flat_xsd_def walk_simps)



section \<open>The loops\<close>

lemma elements_loop_append:
  "elements_loop ut root ns parent lvl fail normalise (xs @ ys) st =
     (case elements_loop ut root ns parent lvl fail normalise xs st of
        Inl e \<Rightarrow> Inl e
      | Inr st' \<Rightarrow> elements_loop ut root ns parent lvl fail normalise ys st')"
  by (induction xs arbitrary: st) (auto split: sum.splits)

lemma structs_loop_append:
  "structs_loop ut root ns parent lvl fail (xs @ ys) st =
     (case structs_loop ut root ns parent lvl fail xs st of
        Inl e \<Rightarrow> Inl e
      | Inr st' \<Rightarrow> structs_loop ut root ns parent lvl fail ys st')"
proof (induction xs arbitrary: st)
  case Nil
  show ?case by simp
next
  case (Cons x xs)
  obtain children sql where st: "st = (children, sql)" by (cases st)
  show ?case
    unfolding st using Cons.IH by (simp split: sum.splits)
qed



lemma deep_call_raises:
  "MAX_RECURSE_LEVEL < lvl \<Longrightarrow> look4element ut root ns el parent lvl fail normalise = Inl MaxRecursion"
  by (simp add: look4element.simps)


lemma element_body_children:
  "element_body ut root ns parent lvl fail normalise x st = Inr (cols', children', sql')
     \<Longrightarrow> children'"
  by (cases st) (auto split: sum.splits if_splits option.splits)

lemma elements_loop_children:
  "elements_loop ut root ns parent lvl fail normalise xs (cols, children, sql)
      = Inr (cols', children', sql')
     \<Longrightarrow> children' = (children \<or> xs \<noteq> [])"
proof (induction xs arbitrary: cols children sql)
  case Nil
  then show ?case by simp
next
  case (Cons x xs)
  from Cons.prems obtain c ch s where
    body: "element_body ut root ns parent lvl fail normalise x (cols, children, sql) = Inr (c, ch, s)"
    and rest: "elements_loop ut root ns parent lvl fail normalise xs (c, ch, s)
                 = Inr (cols', children', sql')"
    by (auto split: sum.splits)
  from body have ch by (rule element_body_children)
  with Cons.IH [OF rest] show ?case by simp
qed

lemma structs_loop_children:
  "structs_loop ut root ns parent lvl fail xs (children, sql) = Inr (children', sql')
     \<Longrightarrow> children' = (children \<or> xs \<noteq> [])"
  by (induction xs arbitrary: children sql) (auto split: sum.splits)

lemma leaf_has_no_sql:
  assumes "look4element ut root ns el parent lvl fail normalise = Inr rez" and "\<not> fst rez"
  shows "snd rez = []"
proof -
  obtain c s where rez: "rez = (c, s)" by (cases rez)
  from assms(1) obtain cols ch1 sql1 st where
    e: "elements_loop ut root ns parent lvl fail normalise (findall el (ns @ ''element''))
          (None, False, []) = Inr (cols, ch1, sql1)"
    and ct: "structs_loop ut root ns parent lvl fail (findall el (ns @ ''complexType''))
          (ch1, if truthy cols then sql1 @ create_table parent cols else sql1) = Inr st"
    and sq: "structs_loop ut root ns parent lvl fail (findall el (ns @ ''sequence'')) st
          = Inr (c, s)"
    by (auto simp: look4element.simps [of _ _ _ el] rez split: if_splits sum.splits)
  obtain ch2 sql2 where st: "st = (ch2, sql2)" by (cases st)
  from assms(2) have "\<not> c" by (simp add: rez)
  with structs_loop_children [OF sq [unfolded st]]
  have "\<not> ch2" and sq0: "findall el (ns @ ''sequence'') = []" by auto
  with structs_loop_children [OF ct [unfolded st]]
  have "\<not> ch1" and ct0: "findall el (ns @ ''complexType'') = []" by auto
  with elements_loop_children [OF e]
  have e0: "findall el (ns @ ''element'') = []" by auto
  from e ct sq show ?thesis
    by (simp add: e0 ct0 sq0 rez st)
qed

lemma structs_loop_sql:
  "structs_loop ut root ns parent lvl fail xs (children, sql) =
     map_sum id (apsnd ((@) sql)) (structs_loop ut root ns parent lvl fail xs (children, []))"
proof (induction xs arbitrary: children sql)
  case Nil
  show ?case by simp
next
  case (Cons x xs)
  show ?case
  proof (cases "look4element ut root ns x (py_or (el_get x ''name'') parent) (lvl + 1) fail True")
    case (Inl e)
    then show ?thesis by simp
  next
    case (Inr rez)
    have "structs_loop ut root ns parent lvl fail (x # xs) (children, sql) =
            structs_loop ut root ns parent lvl fail xs (True, sql @ snd rez @ ''\<newline>'')"
      using Inr by simp
    also have "\<dots> = map_sum id (apsnd ((@) (sql @ snd rez @ ''\<newline>'')))
            (structs_loop ut root ns parent lvl fail xs (True, []))"
      by (rule Cons.IH)
    also have "\<dots> = map_sum id (apsnd ((@) sql))
            (map_sum id (apsnd ((@) (snd rez @ ''\<newline>'')))
               (structs_loop ut root ns parent lvl fail xs (True, [])))"
      by (cases "structs_loop ut root ns parent lvl fail xs (True, [])") auto
    also have "\<dots> = map_sum id (apsnd ((@) sql))
            (structs_loop ut root ns parent lvl fail xs (True, snd rez @ ''\<newline>''))"
      by (simp only: Cons.IH [symmetric])
    also have "\<dots> = map_sum id (apsnd ((@) sql))
            (structs_loop ut root ns parent lvl fail (x # xs) (children, []))"
      using Inr by simp
    finally show ?thesis .
  qed
qed

lemma structs_loop_outputs:
  "structs_loop ut root ns parent lvl fail xs (children, []) = Inr (children', sql)
   \<Longrightarrow> \<exists>rs. list_all2 (\<lambda>x r. look4element ut root ns x (py_or (el_get x ''name'') parent)
                                 (lvl + 1) fail True = Inr r) xs rs
            \<and> sql = concat (map (\<lambda>r. snd r @ ''\<newline>'') rs)"
proof (induction xs arbitrary: children children' sql)
  case Nil
  then show ?case by simp
next
  case (Cons x xs)
  from Cons.prems obtain rez where
    r: "look4element ut root ns x (py_or (el_get x ''name'') parent) (lvl + 1) fail True = Inr rez"
    and rest: "structs_loop ut root ns parent lvl fail xs (True, snd rez @ ''\<newline>'')
                 = Inr (children', sql)"
    by (auto split: sum.splits)
  from rest obtain s where
    s: "structs_loop ut root ns parent lvl fail xs (True, []) = Inr (children', s)"
    and sql: "sql = (snd rez @ ''\<newline>'') @ s"
    by (subst (asm) structs_loop_sql)
       (cases "structs_loop ut root ns parent lvl fail xs (True, [])"; auto)
  from Cons.IH [OF s] obtain rs where
    "list_all2 (\<lambda>x r. look4element ut root ns x (py_or (el_get x ''name'') parent)
                                 (lvl + 1) fail True = Inr r) xs rs"
    "s = concat (map (\<lambda>r. snd r @ ''\<newline>'') rs)"
    by blast
  with r sql have
    "list_all2 (\<lambda>x r. look4element ut root ns x (py_or (el_get x ''name'') parent)
                                 (lvl + 1) fail True = Inr r) (x # xs) (rez # rs)
     \<and> sql = concat (map (\<lambda>r. snd r @ ''\<newline>'') (rez # rs))"
    by simp
  then show ?case by blast
qed

lemma look4element_parts:
  assumes "look4element ut root ns el parent lvl fail normalise = Inr (children, sql)"
  shows "\<exists>cols ch1 E ch2 CT SQ.
           elements_loop ut root ns parent lvl fail normalise (findall el (ns @ ''element''))
             (None, False, []) = Inr (cols, ch1, E)
         \<and> structs_loop ut root ns parent lvl fail (findall el (ns @ ''complexType'')) (ch1, [])
             = Inr (ch2, CT)
         \<and> structs_loop ut root ns parent lvl fail (findall el (ns @ ''sequence'')) (ch2, [])
             = Inr (children, SQ)
         \<and> sql = E @ (if truthy cols then create_table parent cols else []) @ CT @ SQ"
proof -
  from assms obtain cols ch1 E st where
    e: "elements_loop ut root ns parent lvl fail normalise (findall el (ns @ ''element''))
          (None, False, []) = Inr (cols, ch1, E)"
    and ct: "structs_loop ut root ns parent lvl fail (findall el (ns @ ''complexType''))
          (ch1, if truthy cols then E @ create_table parent cols else E) = Inr st"
    and sq: "structs_loop ut root ns parent lvl fail (findall el (ns @ ''sequence'')) st
          = Inr (children, sql)"
    by (auto simp: look4element.simps [of _ _ _ el] split: if_splits sum.splits)
  obtain ch2 sql2 where st: "st = (ch2, sql2)" by (cases st)
  from ct obtain CT where
    ct': "structs_loop ut root ns parent lvl fail (findall el (ns @ ''complexType'')) (ch1, [])
            = Inr (ch2, CT)"
    and sql2: "sql2 = (if truthy cols then E @ create_table parent cols else E) @ CT"
    unfolding st
    by (subst (asm) structs_loop_sql)
       (cases "structs_loop ut root ns parent lvl fail (findall el (ns @ ''complexType''))
                 (ch1, [])"; auto)
  from sq obtain SQ where
    sq': "structs_loop ut root ns parent lvl fail (findall el (ns @ ''sequence'')) (ch2, [])
            = Inr (children, SQ)"
    and sql: "sql = sql2 @ SQ"
    unfolding st
    by (subst (asm) structs_loop_sql)
       (cases "structs_loop ut root ns parent lvl fail (findall el (ns @ ''sequence''))
                 (ch2, [])"; auto)
  from e ct' sq' sql sql2 show ?thesis
    by (intro exI [of _ cols] exI [of _ ch1] exI [of _ E] exI [of _ ch2] exI [of _ CT]
          exI [of _ SQ]) simp
qed

lemma element_body_sql:
  "element_body ut root ns parent lvl fail normalise x (cols, children, sql) =
     map_sum id (\<lambda>(c, ch, s). (c, ch, sql @ s))
       (element_body ut root ns parent lvl fail normalise x (cols, children, []))"
  by (auto split: sum.splits option.splits)

lemma elements_loop_sql:
  "elements_loop ut root ns parent lvl fail normalise xs (cols, children, sql) =
     map_sum id (\<lambda>(c, ch, s). (c, ch, sql @ s))
       (elements_loop ut root ns parent lvl fail normalise xs (cols, children, []))"
proof (induction xs arbitrary: cols children sql)
  case Nil
  show ?case by simp
next
  case (Cons x xs)
  show ?case
  proof (cases "element_body ut root ns parent lvl fail normalise x (cols, children, [])")
    case (Inl e)
    then show ?thesis
      by (subst elements_loop.simps, subst element_body_sql) simp
  next
    case (Inr st)
    obtain c ch s where st: "st = (c, ch, s)" by (cases st)
    have "elements_loop ut root ns parent lvl fail normalise (x # xs) (cols, children, sql) =
            elements_loop ut root ns parent lvl fail normalise xs (c, ch, sql @ s)"
      using Inr by (subst elements_loop.simps, subst element_body_sql) (simp add: st)
    also have "\<dots> = map_sum id (\<lambda>(c, ch, s'). (c, ch, (sql @ s) @ s'))
            (elements_loop ut root ns parent lvl fail normalise xs (c, ch, []))"
      by (rule Cons.IH)
    also have "\<dots> = map_sum id (\<lambda>(c, ch, s'). (c, ch, sql @ s'))
            (map_sum id (\<lambda>(c, ch, s'). (c, ch, s @ s'))
               (elements_loop ut root ns parent lvl fail normalise xs (c, ch, [])))"
      by (cases "elements_loop ut root ns parent lvl fail normalise xs (c, ch, [])") auto
    also have "\<dots> = map_sum id (\<lambda>(c, ch, s'). (c, ch, sql @ s'))
            (elements_loop ut root ns parent lvl fail normalise xs (c, ch, s))"
      by (simp only: Cons.IH [symmetric])
    also have "\<dots> = map_sum id (\<lambda>(c, ch, s'). (c, ch, sql @ s'))
            (elements_loop ut root ns parent lvl fail normalise (x # xs) (cols, children, []))"
      using Inr by (simp add: st del: element_body.simps)
    finally show ?thesis .
  qed
qed

lemma element_body_output:
  "element_body ut root ns parent lvl fail normalise x (cols, children, []) = Inr (cols', children', out)
   \<Longrightarrow> element_output ut root ns parent lvl fail x = Inr out"
  unfolding element_output_def
  by (auto split: sum.splits option.splits if_splits)

lemma elements_loop_outputs:
  "elements_loop ut root ns parent lvl fail normalise xs (cols, children, []) = Inr (cols', children', sql)
   \<Longrightarrow> \<exists>outs. list_all2 (\<lambda>x out. element_output ut root ns parent lvl fail x = Inr out) xs outs \<and> sql = concat outs"
proof (induction xs arbitrary: cols children cols' children' sql)
  case Nil
  then show ?case by simp
next
  case (Cons x xs)
  from Cons.prems obtain c ch out where
    body: "element_body ut root ns parent lvl fail normalise x (cols, children, []) = Inr (c, ch, out)"
    and rest: "elements_loop ut root ns parent lvl fail normalise xs (c, ch, out)
                 = Inr (cols', children', sql)"
    by (auto simp del: element_body.simps split: sum.splits)
  from rest obtain s where
    s: "elements_loop ut root ns parent lvl fail normalise xs (c, ch, []) = Inr (cols', children', s)"
    and sql: "sql = out @ s"
    by (subst (asm) elements_loop_sql)
       (cases "elements_loop ut root ns parent lvl fail normalise xs (c, ch, [])"; auto)
  from Cons.IH [OF s] obtain outs where
    "list_all2 (\<lambda>x out. element_output ut root ns parent lvl fail x = Inr out) xs outs" "s = concat outs"
    by blast
  with element_body_output [OF body] sql have
    "list_all2 (\<lambda>x out. element_output ut root ns parent lvl fail x = Inr out) (x # xs) (out # outs)
     \<and> sql = concat (out # outs)"
    by simp
  then show ?case by blast
qed

section \<open>The fail flag\<close>

text \<open>No call reads \<open>fail\<close>: the walk does the same whatever its value.\<close>

lemma fail_is_ignored:
  "look4element ut root ns el parent lvl fail normalise
     = look4element ut root ns el parent lvl fail' normalise"
proof (induction "101 - lvl" arbitrary: lvl el parent normalise)
  case 0
  then have "MAX_RECURSE_LEVEL < lvl"
    by (simp add: MAX_RECURSE_LEVEL_def)
  then show ?case
    by (simp add: deep_call_raises)
next
  case (Suc k)
  from Suc.hyps(2) have k: "k = 101 - (lvl + 1)"
    by simp
  note deeper = Suc.hyps(1) [OF k]
  have body: "element_body ut root ns parent lvl fail normalise x st
                = element_body ut root ns parent lvl fail' normalise x st" for x st parent normalise
  proof -
    obtain c ch s where st: "st = (c, ch, s)" by (cases st)
    show ?thesis
      unfolding st element_body.simps deeper [of _ _ True] by (rule refl)
  qed
  have elements: "elements_loop ut root ns parent lvl fail normalise xs st
                = elements_loop ut root ns parent lvl fail' normalise xs st" for xs st parent normalise
    by (induction xs arbitrary: st) (simp_all add: body del: element_body.simps split: sum.splits)
  have structs: "structs_loop ut root ns parent lvl fail xs st
                = structs_loop ut root ns parent lvl fail' xs st" for xs st parent
  proof (induction xs arbitrary: st)
    case Nil
    show ?case by simp
  next
    case (Cons x xs)
    obtain c s where st: "st = (c, s)" by (cases st)
    show ?case
      unfolding st structs_loop.simps deeper [of _ _ True] Cons.IH by (rule refl)
  qed
  show ?case
    by (simp add: look4element.simps [of _ _ _ el] elements structs split: sum.splits)
qed

text \<open>
  C2. The walk with \<open>fail\<close> set returns what it returns with \<open>fail\<close> unset. Over a leaf
  element whose type \<open>foo\<close> is no built-in, no user type and no declared
  \<open>complexType\<close> it returns normally, with the field dropped: no \<open>InvalidXMLType\<close> is
  raised. The same holds for the main program run with \<open>--fail\<close>.
\<close>

theorem strict_mode_does_not_fail:
  "look4element ut root ns el parent lvl True normalise
     = look4element ut root ns el parent lvl False normalise
   \<and> look4element Map.empty unknown_type_xsd XMLS unknown_type_xsd (Some ''t'') 0 True True
      = Inr (True, ''\<newline>'')
   \<and> main_walk ''t'' unknown_type_xsd True False = Inr (True, ''\<newline>'')"
  using fail_is_ignored [of ut root ns el parent lvl True normalise False]
  by (simp add: main_walk_def buildTypes_def unknown_type_xsd_def walk_simps)

section \<open>The recursion limit\<close>

lemma tag_nested_sequences: "tag (nested_sequences n) = XMLS @ ''sequence''"
  by (cases n) simp_all

lemma attrib_nested_sequences: "attrib (nested_sequences n) = []"
  by (cases n) simp_all

lemma findall_nested_sequences:
  "findall (nested_sequences n) (XMLS @ ''element'') = []"
  "findall (nested_sequences n) (XMLS @ ''complexType'') = []"
  "findall (nested_sequences (Suc n)) (XMLS @ ''sequence'') = [nested_sequences n]"
  "findall (nested_sequences 0) (XMLS @ ''sequence'') = []"
  "el_get (nested_sequences n) k = None"
  by (cases n; simp add: findall_def el_get_def tag_nested_sequences attrib_nested_sequences)+

lemma walk_nested_sequences:
  "look4element ut root XMLS (nested_sequences n) parent lvl fail normalise =
     (if lvl + n > 100 then Inl MaxRecursion else Inr (n > 0, replicate n CHR ''\<newline>''))"
proof (induction n arbitrary: lvl normalise)
  case 0
  show ?case
    by (simp add: look4element.simps [of _ _ _ "nested_sequences 0"] findall_nested_sequences
        MAX_RECURSE_LEVEL_def del: nested_sequences.simps)
next
  case (Suc n)
  show ?case
    by (simp add: look4element.simps [of _ _ _ "nested_sequences (Suc n)"]
        findall_nested_sequences Suc.IH MAX_RECURSE_LEVEL_def py_or_def
        replicate_append_same del: nested_sequences.simps)
qed





section \<open>Type references without children\<close>

text \<open>
  C10. For a leaf element whose type is no built-in and no user type, and whose name
  finds a top-level \<open>complexType\<close> that has no children, the iteration adds no column,
  appends only the newline after the (empty) result of the element's own call, and
  raises nothing: the node found is falsy, so the walk does not enter it. This is the
  result of the iteration in any document where the declaration is absent.
\<close>

theorem childless_type_is_not_expanded:
  assumes "look4element ut root ns x (py_or (el_get x ''name'') parent) (lvl + 1) fail True
             = Inr rez"
      and "\<not> fst rez"
      and "lookup_pgType ut (replace (this_type x) XMLS_PREFIX []) = Inr pgType"
      and "\<not> truthy pgType"
      and "find_complexType root
             (replace (replace (this_type x) XMLS_PREFIX []) ''dlican:'' []) = Some type_node"
      and "subnodes type_node = []"
  shows "element_body ut root ns parent lvl fail normalise x (cols, children, sql)
           = Inr (cols, True, sql @ ''\<newline>'')
       \<and> (\<forall>root'. find_complexType root'
             (replace (replace (this_type x) XMLS_PREFIX []) ''dlican:'' []) = None
           \<and> look4element ut root' ns x (py_or (el_get x ''name'') parent) (lvl + 1) fail True
               = Inr rez
          \<longrightarrow> element_body ut root' ns parent lvl fail normalise x (cols, children, sql)
               = element_body ut root ns parent lvl fail normalise x (cols, children, sql))"
proof -
  have s: "snd rez = []"
    using assms(1,2) by (rule leaf_has_no_sql)
  show ?thesis
    using assms by (simp add: s)
qed

text \<open>
  The element \<open>e\<close> of type \<open>Empty\<close>: with the childless declaration of \<open>Empty\<close> in the
  document and without it, the iteration returns the same.
\<close>

theorem childless_type_is_not_expanded_witness:
  "element_body Map.empty empty_type_xsd XMLS (Some ''t'') 0 False True
      (xs_el ''element'' [(''name'', ''e''), (''type'', ''Empty'')] []) (None, False, [])
     = Inr (None, True, ''\<newline>'')
   \<and> element_body Map.empty absent_type_xsd XMLS (Some ''t'') 0 False True
      (xs_el ''element'' [(''name'', ''e''), (''type'', ''Empty'')] []) (None, False, [])
     = Inr (None, True, ''\<newline>'')"
proof -
  let ?x = "xs_el ''element'' [(''name'', ''e''), (''type'', ''Empty'')] []"
  let ?t = "xs_el ''complexType'' [(''name'', ''Empty'')] []"
  have leaf: "look4element Map.empty root XMLS ?x (py_or (el_get ?x ''name'') (Some ''t''))
                (0 + 1) False True = Inr (False, [])" for root
    by (simp add: walk_simps)
  have l: "\<not> fst (False, [])"
    by simp
  have ty: "lookup_pgType Map.empty (replace (this_type ?x) XMLS_PREFIX []) = Inr None"
    by (simp add: walk_simps)
  have f: "\<not> truthy None"
    by simp
  have found: "find_complexType empty_type_xsd
                 (replace (replace (this_type ?x) XMLS_PREFIX []) ''dlican:'' []) = Some ?t"
    by (simp add: empty_type_xsd_def walk_simps)
  have childless: "subnodes ?t = []"
    by (simp add: xs_el_def)
  have absent: "find_complexType absent_type_xsd
                 (replace (replace (this_type ?x) XMLS_PREFIX []) ''dlican:'' []) = None"
    by (simp add: absent_type_xsd_def walk_simps)
  note t = childless_type_is_not_expanded [OF leaf l ty f found childless,
      of True None False "[]"]
  from conjunct1 [OF t] spec [OF conjunct2 [OF t], of absent_type_xsd] absent leaf
  show ?thesis
    by simp
qed

lemma elements_loop_newlines:
  assumes quiet: "\<And>b r. calls ut root ns fail (el, parent, lvl, normalise) b \<Longrightarrow>
             result_of ut root ns fail b = Inr r \<Longrightarrow> set (snd r) \<subseteq> {CHR ''\<newline>''}"
      and lvl: "\<not> MAX_RECURSE_LEVEL < lvl"
  shows "findall el (ns @ ''element'') = before @ xs \<Longrightarrow>
         elements_loop ut root ns parent lvl fail normalise before (None, False, []) = Inr (cols, children, sql) \<Longrightarrow>
         elements_loop ut root ns parent lvl fail normalise xs (cols, children, sql) = Inr (cols', children', sql') \<Longrightarrow>
         set sql \<subseteq> {CHR ''\<newline>''} \<Longrightarrow>
         set sql' \<subseteq> {CHR ''\<newline>''}"
proof (induction xs arbitrary: before cols children sql)
  case Nil
  then show ?case by simp
next
  case (Cons x xs)
  from Cons.prems(3) obtain c ch s where
    body: "element_body ut root ns parent lvl fail normalise x (cols, children, sql) = Inr (c, ch, s)"
    and rest: "elements_loop ut root ns parent lvl fail normalise xs (c, ch, s)
                 = Inr (cols', children', sql')"
    by (auto simp del: element_body.simps split: sum.splits)
  from body obtain rez where
    rez: "look4element ut root ns x (py_or (el_get x ''name'') parent) (lvl + 1) fail True = Inr rez"
    by (auto split: sum.splits)
  have "calls ut root ns fail (el, parent, lvl, normalise)
          (x, py_or (el_get x ''name'') parent, lvl + 1, True)"
    using lvl Cons.prems(1,2) by (rule element_call)
  with rez have r: "set (snd rez) \<subseteq> {CHR ''\<newline>''}"
    by (auto dest: quiet)
  have s: "set s \<subseteq> {CHR ''\<newline>''}"
  proof (cases "s = sql @ snd rez @ ''\<newline>''")
    case True
    with r Cons.prems(4) show ?thesis by auto
  next
    case False
    with body rez obtain pgType type_node rez' where
      t: "\<not> fst rez"
         "lookup_pgType ut (replace (this_type x) XMLS_PREFIX []) = Inr pgType"
         "\<not> truthy pgType"
         "find_complexType root (replace (replace (this_type x) XMLS_PREFIX []) ''dlican:'' [])
            = Some type_node"
         "node_truthy (Some type_node)"
      and rez': "look4element ut root ns type_node (el_get type_node ''name'') (lvl + 1) fail True
            = Inr rez'"
      and s': "s = sql @ snd rez @ ''\<newline>'' @ snd rez' @ ''\<newline>''"
      by (auto split: sum.splits option.splits if_splits)
    have "calls ut root ns fail (el, parent, lvl, normalise)
            (type_node, el_get type_node ''name'', lvl + 1, True)"
      using lvl Cons.prems(1,2) rez t by (rule type_call)
    with rez' have "set (snd rez') \<subseteq> {CHR ''\<newline>''}"
      by (auto dest: quiet)
    with r Cons.prems(4) s' show ?thesis by auto
  qed
  have before': "elements_loop ut root ns parent lvl fail normalise (before @ [x]) (None, False, [])
                   = Inr (c, ch, s)"
    using Cons.prems(2) body by (simp add: elements_loop_append del: element_body.simps)
  from Cons.prems(1) have "findall el (ns @ ''element'') = (before @ [x]) @ xs"
    by simp
  from this before' rest s show ?case
    by (rule Cons.IH)
qed

lemma structs_loop_newlines:
  assumes call: "\<And>before x after st. xs0 = before @ x # after \<Longrightarrow>
             structs_loop ut root ns parent lvl fail before st0 = Inr st \<Longrightarrow>
             calls ut root ns fail (el, parent, lvl, normalise)
               (x, py_or (el_get x ''name'') parent, lvl + 1, True)"
      and quiet: "\<And>b r. calls ut root ns fail (el, parent, lvl, normalise) b \<Longrightarrow>
             result_of ut root ns fail b = Inr r \<Longrightarrow> set (snd r) \<subseteq> {CHR ''\<newline>''}"
  shows "xs0 = before @ xs \<Longrightarrow>
         structs_loop ut root ns parent lvl fail before st0 = Inr (children, sql) \<Longrightarrow>
         structs_loop ut root ns parent lvl fail xs (children, sql) = Inr (children', sql') \<Longrightarrow>
         set sql \<subseteq> {CHR ''\<newline>''} \<Longrightarrow>
         set sql' \<subseteq> {CHR ''\<newline>''}"
proof (induction xs arbitrary: before children sql)
  case Nil
  then show ?case by simp
next
  case (Cons x xs)
  from Cons.prems(3) obtain rez where
    rez: "look4element ut root ns x (py_or (el_get x ''name'') parent) (lvl + 1) fail True = Inr rez"
    and rest: "structs_loop ut root ns parent lvl fail xs (True, sql @ snd rez @ ''\<newline>'')
                 = Inr (children', sql')"
    by (auto split: sum.splits)
  have "calls ut root ns fail (el, parent, lvl, normalise)
          (x, py_or (el_get x ''name'') parent, lvl + 1, True)"
    using Cons.prems(1,2) by (rule call)
  with rez have r: "set (snd rez) \<subseteq> {CHR ''\<newline>''}"
    by (auto dest: quiet)
  have before': "structs_loop ut root ns parent lvl fail (before @ [x]) st0
                   = Inr (True, sql @ snd rez @ ''\<newline>'')"
    using Cons.prems(2) rez by (simp add: structs_loop_append)
  from Cons.prems(1) have "xs0 = (before @ [x]) @ xs"
    by simp
  moreover note before' rest
  moreover have "set (sql @ snd rez @ ''\<newline>'') \<subseteq> {CHR ''\<newline>''}"
    using r Cons.prems(4) by auto
  ultimately show ?case
    by (rule Cons.IH)
qed

text \<open>
  C9. When the loop over the \<open>element\<close> children of a node ends with no column, the
  result of the node is what the \<open>element\<close> children produced, followed by what the
  \<open>complexType\<close> and then the \<open>sequence\<close> children produced: no \<open>CREATE TABLE\<close> of the
  node's own. If moreover every call made for the node returned newlines only, the
  result of the node is newlines only, with no \<open>CREATE TABLE\<close> in it.
\<close>

theorem no_columns_no_statement:
  assumes walk: "look4element ut root ns el parent lvl fail normalise = Inr (children, sql)"
      and elements: "elements_loop ut root ns parent lvl fail normalise
             (findall el (ns @ ''element'')) (None, False, []) = Inr (cols, ch, E)"
      and empty: "\<not> truthy cols"
  shows "(\<exists>ch' CT SQ.
            structs_loop ut root ns parent lvl fail (findall el (ns @ ''complexType'')) (ch, [])
              = Inr (ch', CT)
          \<and> structs_loop ut root ns parent lvl fail (findall el (ns @ ''sequence'')) (ch', [])
              = Inr (children, SQ)
          \<and> sql = E @ CT @ SQ)
       \<and> ((\<forall>b r. calls ut root ns fail (el, parent, lvl, normalise) b
                  \<and> result_of ut root ns fail b = Inr r
               \<longrightarrow> set (snd r) \<subseteq> {CHR ''\<newline>''})
            \<longrightarrow> set sql \<subseteq> {CHR ''\<newline>''} \<and> find_sub sql ''CREATE TABLE'' = None)"
proof
  from look4element_parts [OF walk] elements empty
  show "\<exists>ch' CT SQ.
            structs_loop ut root ns parent lvl fail (findall el (ns @ ''complexType'')) (ch, [])
              = Inr (ch', CT)
          \<and> structs_loop ut root ns parent lvl fail (findall el (ns @ ''sequence'')) (ch', [])
              = Inr (children, SQ)
          \<and> sql = E @ CT @ SQ"
    by auto
next
  show "(\<forall>b r. calls ut root ns fail (el, parent, lvl, normalise) b
                  \<and> result_of ut root ns fail b = Inr r
               \<longrightarrow> set (snd r) \<subseteq> {CHR ''\<newline>''})
            \<longrightarrow> set sql \<subseteq> {CHR ''\<newline>''} \<and> find_sub sql ''CREATE TABLE'' = None"
  proof
    assume "\<forall>b r. calls ut root ns fail (el, parent, lvl, normalise) b
                  \<and> result_of ut root ns fail b = Inr r
               \<longrightarrow> set (snd r) \<subseteq> {CHR ''\<newline>''}"
    then have quiet: "\<And>b r. calls ut root ns fail (el, parent, lvl, normalise) b \<Longrightarrow>
             result_of ut root ns fail b = Inr r \<Longrightarrow> set (snd r) \<subseteq> {CHR ''\<newline>''}"
      by blast
    from walk have lvl: "\<not> MAX_RECURSE_LEVEL < lvl"
      by (auto simp: look4element.simps [of _ _ _ el] split: if_splits)
    from walk elements empty lvl obtain st where
      ct: "structs_loop ut root ns parent lvl fail (findall el (ns @ ''complexType'')) (ch, E)
             = Inr st"
      and sq: "structs_loop ut root ns parent lvl fail (findall el (ns @ ''sequence'')) st
             = Inr (children, sql)"
      by (auto simp: look4element.simps [of _ _ _ el] split: sum.splits)
    obtain ch2 sql2 where st: "st = (ch2, sql2)" by (cases st)
    have E: "set E \<subseteq> {CHR ''\<newline>''}"
      using quiet lvl
    proof (rule elements_loop_newlines)
      show "findall el (ns @ ''element'') = [] @ findall el (ns @ ''element'')" by simp
      show "elements_loop ut root ns parent lvl fail normalise [] (None, False, [])
              = Inr (None, False, [])" by simp
      show "elements_loop ut root ns parent lvl fail normalise (findall el (ns @ ''element''))
              (None, False, []) = Inr (cols, ch, E)" by (rule elements)
      show "set [] \<subseteq> {CHR ''\<newline>''}" by simp
    qed
    have init: "(ch, if truthy cols then E @ create_table parent cols else E) = (ch, E)"
      using empty by simp
    have sql2: "set sql2 \<subseteq> {CHR ''\<newline>''}"
    proof (rule structs_loop_newlines [where ?st0.0 = "(ch, E)" and before = "[]"
            and ?xs0.0 = "findall el (ns @ ''complexType'')" and el = el and normalise = normalise])
      show "calls ut root ns fail (el, parent, lvl, normalise)
              (x, py_or (el_get x ''name'') parent, lvl + 1, True)"
        if "findall el (ns @ ''complexType'') = before @ x # after"
          and "structs_loop ut root ns parent lvl fail before (ch, E) = Inr st'"
        for before x after st'
        using lvl elements that(1) that(2) [folded init] by (rule complexType_call)
      show "set (snd r) \<subseteq> {CHR ''\<newline>''}"
        if "calls ut root ns fail (el, parent, lvl, normalise) b"
          "result_of ut root ns fail b = Inr r" for b r
        using that by (rule quiet)
      show "findall el (ns @ ''complexType'') = [] @ findall el (ns @ ''complexType'')" by simp
      show "structs_loop ut root ns parent lvl fail [] (ch, E) = Inr (ch, E)" by simp
      show "structs_loop ut root ns parent lvl fail (findall el (ns @ ''complexType'')) (ch, E)
              = Inr (ch2, sql2)" using ct st by simp
      show "set E \<subseteq> {CHR ''\<newline>''}" by (rule E)
    qed
    have sql: "set sql \<subseteq> {CHR ''\<newline>''}"
    proof (rule structs_loop_newlines [where ?st0.0 = "(ch2, sql2)" and before = "[]"
            and ?xs0.0 = "findall el (ns @ ''sequence'')" and el = el and normalise = normalise])
      show "calls ut root ns fail (el, parent, lvl, normalise)
              (x, py_or (el_get x ''name'') parent, lvl + 1, True)"
        if "findall el (ns @ ''sequence'') = before @ x # after"
          and "structs_loop ut root ns parent lvl fail before (ch2, sql2) = Inr st'"
        for before x after st'
        using lvl elements ct [folded init, unfolded st] that by (rule sequence_call)
      show "set (snd r) \<subseteq> {CHR ''\<newline>''}"
        if "calls ut root ns fail (el, parent, lvl, normalise) b"
          "result_of ut root ns fail b = Inr r" for b r
        using that by (rule quiet)
      show "findall el (ns @ ''sequence'') = [] @ findall el (ns @ ''sequence'')" by simp
      show "structs_loop ut root ns parent lvl fail [] (ch2, sql2) = Inr (ch2, sql2)" by simp
      show "structs_loop ut root ns parent lvl fail (findall el (ns @ ''sequence'')) (ch2, sql2)
              = Inr (children, sql)" using sq st by simp
      show "set sql2 \<subseteq> {CHR ''\<newline>''}" by (rule sql2)
    qed
    have "find_from i s ''CREATE TABLE'' = None" if "set s \<subseteq> {CHR ''\<newline>''}" for i s
      using that by (induction s arbitrary: i) auto
    with sql show "set sql \<subseteq> {CHR ''\<newline>''} \<and> find_sub sql ''CREATE TABLE'' = None"
      by (simp add: find_sub_def)
  qed
qed

text \<open>
  The walk of the schema whose only element has the undeclared type \<open>foo\<close>: no column,
  and the only call made returns the empty string.
\<close>

theorem no_columns_no_statement_witness:
  "look4element Map.empty unknown_type_xsd XMLS unknown_type_xsd (Some ''t'') 0 False True
     = Inr (True, ''\<newline>'')
   \<and> set ''\<newline>'' \<subseteq> {CHR ''\<newline>''}
   \<and> find_sub ''\<newline>'' ''CREATE TABLE'' = None"
proof -
  have walk: "look4element Map.empty unknown_type_xsd XMLS unknown_type_xsd (Some ''t'') 0 False True
     = Inr (True, ''\<newline>'')"
    by (simp add: unknown_type_xsd_def walk_simps)
  have elements: "elements_loop Map.empty unknown_type_xsd XMLS (Some ''t'') 0 False True
      (findall unknown_type_xsd (XMLS @ ''element'')) (None, False, []) = Inr (None, True, ''\<newline>'')"
    by (simp add: unknown_type_xsd_def walk_simps)
  have empty: "\<not> truthy None"
    by simp
  have leaf: "look4element Map.empty root ''{http://www.w3.org/2001/XMLSchema}''
                (Node ''{http://www.w3.org/2001/XMLSchema}element''
                   [(''name'', ''a''), (''type'', ''foo'')] [])
                (Some ''a'') (Suc 0) False True
                = Inr (False, [])" for root
    by (simp add: walk_simps)
  have quiet: "\<forall>b r. calls Map.empty unknown_type_xsd XMLS False
                  (unknown_type_xsd, Some ''t'', 0, True) b
              \<and> result_of Map.empty unknown_type_xsd XMLS False b = Inr r
             \<longrightarrow> set (snd r) \<subseteq> {CHR ''\<newline>''}"
  proof (intro allI impI, elim conjE)
    fix b r
    assume "calls Map.empty unknown_type_xsd XMLS False (unknown_type_xsd, Some ''t'', 0, True) b"
      and "result_of Map.empty unknown_type_xsd XMLS False b = Inr r"
    then show "set (snd r) \<subseteq> {CHR ''\<newline>''}"
      by (cases rule: calls.cases)
         (auto simp: unknown_type_xsd_def xs_el_def XMLS_def findall_def find_complexType_def
            el_get_def py_or_def this_type_def XMLS_PREFIX_def Cons_eq_append_conv
            leaf)
  qed
  from no_columns_no_statement [OF walk elements empty] quiet walk
  show ?thesis
    by blast
qed

section \<open>The order of the statements\<close>

lemma walk_p_sequence:
  "look4element ut root XMLS p_sequence (Some ''P'') 3 fail normalise =
     Inr (True, ''\<newline>CREATE TABLE A (x varchar);\<newline>\<newline>\<newline>\<newline>CREATE TABLE P (b varchar);'')"
  by (simp add: p_sequence_def walk_simps)

lemma walk_nested_table_xsd:
  "look4element ut nested_table_xsd XMLS nested_table_xsd parent 0 fail normalise =
     Inr (True, ''\<newline>CREATE TABLE A (x varchar);\<newline>\<newline>\<newline>\<newline>CREATE TABLE P (b varchar);\<newline>\<newline>\<newline>'')"
  by (simp add: nested_table_xsd_def p_sequence_def walk_simps)

text \<open>
  C6, as stated: in the schema of \<open>P\<close>, the table \<open>A\<close> is nested inside the sequence that
  emits the table \<open>P\<close>. The statement of \<open>A\<close> is at position 1 of the output, the
  statement of \<open>P\<close> at position 32, after it.
\<close>

theorem nested_table_precedes_counterexample:
  "main_walk ''P'' nested_table_xsd False False =
     Inr (True, ''\<newline>CREATE TABLE A (x varchar);\<newline>\<newline>\<newline>\<newline>CREATE TABLE P (b varchar);\<newline>\<newline>\<newline>'')
   \<and> find_sub ''\<newline>CREATE TABLE A (x varchar);\<newline>\<newline>\<newline>\<newline>CREATE TABLE P (b varchar);\<newline>\<newline>\<newline>''
         ''CREATE TABLE A (x varchar);'' = Some 1
   \<and> find_sub ''\<newline>CREATE TABLE A (x varchar);\<newline>\<newline>\<newline>\<newline>CREATE TABLE P (b varchar);\<newline>\<newline>\<newline>''
         ''CREATE TABLE P (b varchar);'' = Some 32"
proof (intro conjI)
  have "buildTypes ''http://www.w3.org/2001/XMLSchema'' nested_table_xsd Map.empty = Inr Map.empty"
    by (simp add: buildTypes_def nested_table_xsd_def walk_simps)
  then show "main_walk ''P'' nested_table_xsd False False =
     Inr (True, ''\<newline>CREATE TABLE A (x varchar);\<newline>\<newline>\<newline>\<newline>CREATE TABLE P (b varchar);\<newline>\<newline>\<newline>'')"
    by (simp add: main_walk_def walk_nested_table_xsd)
qed (simp_all add: find_sub_def)

text \<open>
  C6, amended. The result of a node that returns is, in this order: what each of its
  \<open>element\<close> children produced, in document order (\<open>element_output\<close>: the result of the
  child's call and a newline, then, exactly for a leaf whose type resolves to no column
  type and names a top-level \<open>complexType\<close> with children, the result of that type's
  call and a newline); then the node's own \<open>CREATE TABLE\<close>
  statement, if it has columns; then the results of its \<open>complexType\<close> children, each
  followed by a newline, in document order; then those of its \<open>sequence\<close> children, in
  the same way. So the statement of a node comes after the statements of the tables
  nested in its \<open>element\<close> children and before those nested in its \<open>complexType\<close> and
  \<open>sequence\<close> children.
\<close>

theorem statement_order:
  assumes "look4element ut root ns el parent lvl fail normalise = Inr (children, sql)"
  shows "\<exists>cols ch E outs cts sqs.
      elements_loop ut root ns parent lvl fail normalise (findall el (ns @ ''element''))
        (None, False, []) = Inr (cols, ch, E)
    \<and> list_all2 (\<lambda>x out. element_output ut root ns parent lvl fail x = Inr out) (findall el (ns @ ''element'')) outs
    \<and> list_all2 (\<lambda>x r. look4element ut root ns x (py_or (el_get x ''name'') parent)
                          (lvl + 1) fail True = Inr r) (findall el (ns @ ''complexType'')) cts
    \<and> list_all2 (\<lambda>x r. look4element ut root ns x (py_or (el_get x ''name'') parent)
                          (lvl + 1) fail True = Inr r) (findall el (ns @ ''sequence'')) sqs
    \<and> sql = concat outs
            @ (if truthy cols then create_table parent cols else [])
            @ concat (map (\<lambda>r. snd r @ ''\<newline>'') cts)
            @ concat (map (\<lambda>r. snd r @ ''\<newline>'') sqs)"
proof -
  from look4element_parts [OF assms] obtain cols ch1 E ch2 CT SQ where
    e: "elements_loop ut root ns parent lvl fail normalise (findall el (ns @ ''element''))
             (None, False, []) = Inr (cols, ch1, E)"
    and ct: "structs_loop ut root ns parent lvl fail (findall el (ns @ ''complexType'')) (ch1, [])
             = Inr (ch2, CT)"
    and sq: "structs_loop ut root ns parent lvl fail (findall el (ns @ ''sequence'')) (ch2, [])
             = Inr (children, SQ)"
    and sql: "sql = E @ (if truthy cols then create_table parent cols else []) @ CT @ SQ"
    by blast
  from elements_loop_outputs [OF e] obtain outs where
    outs: "list_all2 (\<lambda>x out. element_output ut root ns parent lvl fail x = Inr out) (findall el (ns @ ''element'')) outs"
    and E: "E = concat outs"
    by blast
  from structs_loop_outputs [OF ct] obtain cts where
    cts: "list_all2 (\<lambda>x r. look4element ut root ns x (py_or (el_get x ''name'') parent)
                          (lvl + 1) fail True = Inr r) (findall el (ns @ ''complexType'')) cts"
    and CT: "CT = concat (map (\<lambda>r. snd r @ ''\<newline>'') cts)"
    by blast
  from structs_loop_outputs [OF sq] obtain sqs where
    sqs: "list_all2 (\<lambda>x r. look4element ut root ns x (py_or (el_get x ''name'') parent)
                          (lvl + 1) fail True = Inr r) (findall el (ns @ ''sequence'')) sqs"
    and SQ: "SQ = concat (map (\<lambda>r. snd r @ ''\<newline>'') sqs)"
    by blast
  from e outs cts sqs sql E CT SQ show ?thesis
    by blast
qed

text \<open>
  The sequence of \<open>R\<close>, called at depth 3 with the parent name \<open>R\<close>: the leaf \<open>a\<close>
  contributes the result of the walk of its type \<open>T\<close>, with the statement of \<open>T\<close> in it,
  before the statement of \<open>R\<close>.
\<close>

theorem statement_order_witness:
  "(\<exists>cols ch E outs cts sqs.
      elements_loop Map.empty typed_xsd XMLS (Some ''R'') 3 False True
        (findall r_sequence (XMLS @ ''element'')) (None, False, []) = Inr (cols, ch, E)
    \<and> list_all2 (\<lambda>x out. element_output Map.empty typed_xsd XMLS (Some ''R'') 3 False x = Inr out)
         (findall r_sequence (XMLS @ ''element'')) outs
    \<and> list_all2 (\<lambda>x r. look4element Map.empty typed_xsd XMLS x
                          (py_or (el_get x ''name'') (Some ''R'')) (3 + 1) False True = Inr r)
         (findall r_sequence (XMLS @ ''complexType'')) cts
    \<and> list_all2 (\<lambda>x r. look4element Map.empty typed_xsd XMLS x
                          (py_or (el_get x ''name'') (Some ''R'')) (3 + 1) False True = Inr r)
         (findall r_sequence (XMLS @ ''sequence'')) sqs
    \<and> ''\<newline>\<newline>CREATE TABLE T (x integer);\<newline>\<newline>\<newline>CREATE TABLE R (b varchar);''
        = concat outs
            @ (if truthy cols then create_table (Some ''R'') cols else [])
            @ concat (map (\<lambda>r. snd r @ ''\<newline>'') cts)
            @ concat (map (\<lambda>r. snd r @ ''\<newline>'') sqs))
   \<and> findall r_sequence (XMLS @ ''element'') =
        [xs_el ''element'' [(''name'', ''a''), (''type'', ''T'')] [],
         xs_el ''element'' [(''name'', ''b''), (''type'', ''xs:string'')] []]
   \<and> element_output Map.empty typed_xsd XMLS (Some ''R'') 3 False
        (xs_el ''element'' [(''name'', ''a''), (''type'', ''T'')] [])
        = Inr ''\<newline>\<newline>CREATE TABLE T (x integer);\<newline>\<newline>''
   \<and> element_output Map.empty typed_xsd XMLS (Some ''R'') 3 False
        (xs_el ''element'' [(''name'', ''b''), (''type'', ''xs:string'')] [])
        = Inr ''\<newline>''"
proof (intro conjI)
  have walk: "look4element Map.empty typed_xsd XMLS r_sequence (Some ''R'') 3 False True =
     Inr (True, ''\<newline>\<newline>CREATE TABLE T (x integer);\<newline>\<newline>\<newline>CREATE TABLE R (b varchar);'')"
    by (simp add: typed_xsd_def r_sequence_def walk_simps)
  show "\<exists>cols ch E outs cts sqs.
      elements_loop Map.empty typed_xsd XMLS (Some ''R'') 3 False True
        (findall r_sequence (XMLS @ ''element'')) (None, False, []) = Inr (cols, ch, E)
    \<and> list_all2 (\<lambda>x out. element_output Map.empty typed_xsd XMLS (Some ''R'') 3 False x = Inr out)
         (findall r_sequence (XMLS @ ''element'')) outs
    \<and> list_all2 (\<lambda>x r. look4element Map.empty typed_xsd XMLS x
                          (py_or (el_get x ''name'') (Some ''R'')) (3 + 1) False True = Inr r)
         (findall r_sequence (XMLS @ ''complexType'')) cts
    \<and> list_all2 (\<lambda>x r. look4element Map.empty typed_xsd XMLS x
                          (py_or (el_get x ''name'') (Some ''R'')) (3 + 1) False True = Inr r)
         (findall r_sequence (XMLS @ ''sequence'')) sqs
    \<and> ''\<newline>\<newline>CREATE TABLE T (x integer);\<newline>\<newline>\<newline>CREATE TABLE R (b varchar);''
        = concat outs
            @ (if truthy cols then create_table (Some ''R'') cols else [])
            @ concat (map (\<lambda>r. snd r @ ''\<newline>'') cts)
            @ concat (map (\<lambda>r. snd r @ ''\<newline>'') sqs)"
    by (rule statement_order [OF walk])
  show "findall r_sequence (XMLS @ ''element'') =
        [xs_el ''element'' [(''name'', ''a''), (''type'', ''T'')] [],
         xs_el ''element'' [(''name'', ''b''), (''type'', ''xs:string'')] []]"
    by (simp add: r_sequence_def findall_def xs_el_def)
  show "element_output Map.empty typed_xsd XMLS (Some ''R'') 3 False
        (xs_el ''element'' [(''name'', ''a''), (''type'', ''T'')] [])
        = Inr ''\<newline>\<newline>CREATE TABLE T (x integer);\<newline>\<newline>''"
    by (simp add: element_output_def typed_xsd_def walk_simps)
  show "element_output Map.empty typed_xsd XMLS (Some ''R'') 3 False
        (xs_el ''element'' [(''name'', ''b''), (''type'', ''xs:string'')] [])
        = Inr ''\<newline>''"
    by (simp add: element_output_def typed_xsd_def walk_simps)
qed

end
